theory Spec2Isabelle
  imports Complex_Main
begin

section \<open>Values of the program\<close>

text \<open>
  The program is a Flask application (\<^verbatim>\<open>app.py\<close>) around an object detector. Python
  \<^verbatim>\<open>bytes\<close> and \<^verbatim>\<open>str\<close> are character lists, a \<^verbatim>\<open>float\<close> threshold is the real
  number it denotes (thresholds are only parsed and passed on, never computed with), an
  image array is a grid of BGR pixels.
\<close>

type_synonym bytes = string
type_synonym pixel = "nat \<times> nat \<times> nat"
type_synonym image = "pixel list list"

text \<open>\<^verbatim>\<open>video_source\<close> of \<^verbatim>\<open>generate_video_frames\<close>: a camera index or a file path.\<close>

datatype video_source = CamIndex int | VideoFile string

text \<open>\<^verbatim>\<open>source=\<close> of \<^verbatim>\<open>model.predict\<close>: a frame array (streaming) or a path (batch).\<close>

datatype predict_input = FrameArray image | FilePath string

datatype exn = RuntimeError string | ValueError | IndexError | LibraryError string

text \<open>One row of \<^verbatim>\<open>r.boxes\<close>: \<^verbatim>\<open>cls\<close> (after \<^verbatim>\<open>astype(int)\<close>), \<^verbatim>\<open>conf\<close>, \<^verbatim>\<open>xyxy\<close>.\<close>

record box =
  b_cls :: int
  b_conf :: real
  b_xyxy :: "real \<times> real \<times> real \<times> real"

record yolo_result =
  orig_img :: image
  boxes :: "box list option"

text \<open>The value \<^verbatim>\<open>datetime.datetime.now()\<close> returns.\<close>

record datetime =
  year :: nat
  month :: nat
  day :: nat
  hour :: nat
  minute :: nat
  second :: nat
  microsecond :: nat

section \<open>The collaborators outside the program\<close>

text \<open>
  Everything \<^verbatim>\<open>app.py\<close> calls but does not define is a field of the environment. A
  library call that may raise returns \<open>exn + 'a\<close>.
  \<^item> \<open>isOpened\<close>: whether \<^verbatim>\<open>cv2.VideoCapture(s).isOpened()\<close> holds;
  \<^item> \<open>frames\<close>: the frames that the successive \<^verbatim>\<open>cap.read()\<close> calls on \<open>s\<close> deliver
    with \<^verbatim>\<open>ok = True\<close>; the read after the last of them returns \<^verbatim>\<open>ok = False\<close>. This
    is the stored content of a file, and for a device the frames it delivers until it
    fails; a device that never stops delivering is not described by such a list;
  \<^item> \<open>model_predict\<close>, \<open>plot\<close>, \<open>imencode\<close>: the detector, \<^verbatim>\<open>r.plot()\<close> and
    \<^verbatim>\<open>cv2.imencode('.jpg', _)\<close>;
  \<^item> \<open>float_str\<close>, \<open>int_str\<close>: Python's \<^verbatim>\<open>float\<close> and \<^verbatim>\<open>int\<close> on a \<^verbatim>\<open>str\<close>, \<open>None\<close>
    where they raise \<^verbatim>\<open>ValueError\<close>;
  \<^item> \<open>nfkd_ascii\<close>: NFKD normalisation followed by \<^verbatim>\<open>encode('ascii', 'ignore')\<close>, on a
    string that has a character outside ASCII;
  \<^item> \<open>isfile\<close>: \<^verbatim>\<open>os.path.isfile\<close>; \<open>now\<close>: the value of the n-th clock reading;
  \<^item> \<open>CLASS_NAMES\<close>: \<^verbatim>\<open>model.names\<close>.
  The \<^verbatim>\<open>VideoCapture\<close> methods and the writing of files are taken not to raise.
\<close>

record env =
  isOpened :: "video_source \<Rightarrow> bool"
  frames :: "video_source \<Rightarrow> image list"
  model_predict :: "predict_input \<Rightarrow> real \<Rightarrow> real \<Rightarrow> exn + yolo_result list"
  plot :: "yolo_result \<Rightarrow> exn + image"
  imencode :: "image \<Rightarrow> exn + (bool \<times> bytes)"
  float_str :: "string \<Rightarrow> real option"
  int_str :: "string \<Rightarrow> int option"
  nfkd_ascii :: "string \<Rightarrow> string"
  isfile :: "string \<Rightarrow> bool"
  now :: "nat \<Rightarrow> datetime"
  CLASS_NAMES :: "int \<rightharpoonup> string"

text \<open>What the program does to the world, in the order it does it.\<close>

datatype event =
    EvOpen video_source
  | EvRead bool
  | EvPredict predict_input
  | EvEncode bool bytes
  | EvYield bytes
  | EvRelease
  | EvSave string
  | EvWrite string image

fun is_open :: "event \<Rightarrow> bool" where
  "is_open (EvOpen _) = True"
| "is_open _ = False"

fun is_read :: "event \<Rightarrow> bool" where
  "is_read (EvRead _) = True"
| "is_read _ = False"

fun is_predict :: "event \<Rightarrow> bool" where
  "is_predict (EvPredict _) = True"
| "is_predict _ = False"

text \<open>The chunks a trace hands to the consumer, in order.\<close>

fun chunks :: "event list \<Rightarrow> bytes list" where
  "chunks [] = []"
| "chunks (EvYield c # evs) = c # chunks evs"
| "chunks (_ # evs) = chunks evs"

text \<open>The buffers that \<^verbatim>\<open>cv2.imencode\<close> returned with \<^verbatim>\<open>ok = True\<close>, in order.\<close>

fun encoded :: "event list \<Rightarrow> bytes list" where
  "encoded [] = []"
| "encoded (EvEncode ok buffer # evs) = (if ok then buffer # encoded evs else encoded evs)"
| "encoded (_ # evs) = encoded evs"

section \<open>Decimal text\<close>

fun digit_char :: "nat \<Rightarrow> char" where
  "digit_char n = ''0123456789'' ! (n mod 10)"

fun str_nat_fuel :: "nat \<Rightarrow> nat \<Rightarrow> string" where
  "str_nat_fuel 0 n = [digit_char n]"
| "str_nat_fuel (Suc k) n =
     (if n < 10 then [digit_char n] else str_nat_fuel k (n div 10) @ [digit_char n])"

text \<open>\<^verbatim>\<open>str(n)\<close> for \<open>n \<ge> 0\<close>: a number has at most \<open>n + 1\<close> digits.\<close>

definition str_nat :: "nat \<Rightarrow> string" where
  "str_nat n = str_nat_fuel n n"

definition str_int :: "int \<Rightarrow> string" where
  "str_int i = (if i < 0 then CHR ''-'' # str_nat (nat (- i)) else str_nat (nat i))"

text \<open>A \<^verbatim>\<open>strftime\<close> field: decimal, zero-padded on the left to width \<open>w\<close>.\<close>

definition zpad :: "nat \<Rightarrow> nat \<Rightarrow> string" where
  "zpad w n = replicate (w - length (str_nat n)) CHR ''0'' @ str_nat n"

fun str_source :: "video_source \<Rightarrow> string" where
  "str_source (CamIndex i) = str_int i"
| "str_source (VideoFile p) = p"

section \<open>The frame generator\<close>

definition CRLF :: string where
  "CRLF = [CHR 0x0D, CHR 0x0A]"

text \<open>The value of the \<^verbatim>\<open>yield\<close> expression (lines 41-42).\<close>

definition frame_chunk :: "bytes \<Rightarrow> bytes" where
  "frame_chunk frame_bytes =
     ''--frame'' @ CRLF @ ''Content-Type: image/jpeg'' @ CRLF @ CRLF @ frame_bytes @ CRLF"

text \<open>
  Lines 34-37, the work on one frame that was read: \<^verbatim>\<open>model.predict\<close>,
  \<^verbatim>\<open>results[0]\<close>, \<^verbatim>\<open>r.plot()\<close>, \<^verbatim>\<open>cv2.imencode\<close>. No exception is caught here.
\<close>

definition annotate_encode ::
  "env \<Rightarrow> real \<Rightarrow> real \<Rightarrow> image \<Rightarrow> event list \<times> (exn + (bool \<times> bytes))" where
  "annotate_encode env conf iou frame_bgr =
     (case model_predict env (FrameArray frame_bgr) conf iou of
        Inl e \<Rightarrow> ([EvPredict (FrameArray frame_bgr)], Inl e)
      | Inr results \<Rightarrow>
          (case results of
             [] \<Rightarrow> ([EvPredict (FrameArray frame_bgr)], Inl IndexError)
           | r # _ \<Rightarrow>
               (case plot env r of
                  Inl e \<Rightarrow> ([EvPredict (FrameArray frame_bgr)], Inl e)
                | Inr annotated \<Rightarrow>
                    (case imencode env annotated of
                       Inl e \<Rightarrow> ([EvPredict (FrameArray frame_bgr)], Inl e)
                     | Inr (ok, buffer) \<Rightarrow>
                         ([EvPredict (FrameArray frame_bgr), EvEncode ok buffer], Inr (ok, buffer))))))"

text \<open>
  How a run of the \<^verbatim>\<open>while True\<close> loop (lines 30-42) leaves the loop body: by
  \<^verbatim>\<open>break\<close>, by an exception, or suspended at the \<^verbatim>\<open>yield\<close> with the frames the capture
  still holds.
\<close>

datatype loop_exit = Break | Raised exn | Yielded bytes "image list"

fun frame_loop :: "env \<Rightarrow> real \<Rightarrow> real \<Rightarrow> image list \<Rightarrow> event list \<times> loop_exit" where
  "frame_loop env conf iou [] = ([EvRead False], Break)"
| "frame_loop env conf iou (frame_bgr # pending) =
     (case annotate_encode env conf iou frame_bgr of
        (evs, Inl e) \<Rightarrow> (EvRead True # evs, Raised e)
      | (evs, Inr (ok, buffer)) \<Rightarrow>
          (if \<not> ok
           then (case frame_loop env conf iou pending of
                   (evs', x) \<Rightarrow> (EvRead True # evs @ evs', x))
           else (EvRead True # evs @ [EvYield (frame_chunk buffer)],
                 Yielded (frame_chunk buffer) pending)))"

text \<open>
  The generator object. Calling \<^verbatim>\<open>generate_video_frames\<close> runs none of its body
  (\<open>Created\<close>); \<open>Suspended\<close> is the generator paused at the \<^verbatim>\<open>yield\<close>, inside the
  \<^verbatim>\<open>try\<close>, holding the capture with its pending frames.
\<close>

datatype generator =
    Created video_source real real
  | Suspended "image list" real real
  | Closed

datatype next_result = Item bytes | StopIteration | Raises exn

text \<open>Running the loop from inside the \<^verbatim>\<open>try\<close>; the \<^verbatim>\<open>finally\<close> runs when the loop is left.\<close>

definition resume ::
  "env \<Rightarrow> real \<Rightarrow> real \<Rightarrow> image list \<Rightarrow> event list \<times> generator \<times> next_result" where
  "resume env conf iou pending =
     (case frame_loop env conf iou pending of
        (evs, Break) \<Rightarrow> (evs @ [EvRelease], Closed, StopIteration)
      | (evs, Raised e) \<Rightarrow> (evs @ [EvRelease], Closed, Raises e)
      | (evs, Yielded chunk rest) \<Rightarrow> (evs, Suspended rest conf iou, Item chunk))"

text \<open>\<^verbatim>\<open>next(g)\<close>. Lines 26-28 run on the first call, before the \<^verbatim>\<open>try\<close>.\<close>

fun gen_next :: "env \<Rightarrow> generator \<Rightarrow> event list \<times> generator \<times> next_result" where
  "gen_next env (Created video_source conf iou) =
     (if \<not> isOpened env video_source
      then ([EvOpen video_source], Closed,
            Raises (RuntimeError (''Could not open video: '' @ str_source video_source)))
      else (case resume env conf iou (frames env video_source) of
              (evs, g, r) \<Rightarrow> (EvOpen video_source # evs, g, r)))"
| "gen_next env (Suspended pending conf iou) = resume env conf iou pending"
| "gen_next env Closed = ([], Closed, StopIteration)"

text \<open>
  \<^verbatim>\<open>g.close()\<close>: at the \<^verbatim>\<open>yield\<close> it raises \<^verbatim>\<open>GeneratorExit\<close> there, which runs the
  \<^verbatim>\<open>finally\<close>; on a generator that has not started or has finished it does nothing.
\<close>

fun gen_close :: "generator \<Rightarrow> event list \<times> generator" where
  "gen_close (Created video_source conf iou) = ([], Closed)"
| "gen_close (Suspended pending conf iou) = ([EvRelease], Closed)"
| "gen_close Closed = ([], Closed)"

text \<open>
  The consumer of the response body. It pulls chunks with \<^verbatim>\<open>next\<close> and closes the
  generator when it stops: after the generator is exhausted, after it raised, or after
  \<open>k\<close> chunks, when the client has gone.
\<close>

datatype ending = Exhausted | Failed exn | Cancelled

fun serve_stream :: "env \<Rightarrow> nat \<Rightarrow> generator \<Rightarrow> event list \<times> ending" where
  "serve_stream env 0 g = (fst (gen_close g), Cancelled)"
| "serve_stream env (Suc k) g =
     (case gen_next env g of
        (evs, g', Item chunk) \<Rightarrow>
          (case serve_stream env k g' of (evs', x) \<Rightarrow> (evs @ evs', x))
      | (evs, g', StopIteration) \<Rightarrow> (evs @ fst (gen_close g'), Exhausted)
      | (evs, g', Raises e) \<Rightarrow> (evs @ fst (gen_close g'), Failed e))"

section \<open>Strings and paths\<close>

text \<open>
  Paths follow \<^verbatim>\<open>posixpath\<close>. \<^verbatim>\<open>s.rfind(c)\<close> is the last index of \<open>c\<close>, or \<open>-1\<close>.
\<close>

definition rfind :: "char \<Rightarrow> string \<Rightarrow> int" where
  "rfind c s =
     (if c \<in> set s
      then int (length s) - 1 - int (length (takeWhile (\<lambda>x. x \<noteq> c) (rev s)))
      else - 1)"

text \<open>\<^verbatim>\<open>os.path.basename\<close>: \<^verbatim>\<open>i = p.rfind('/') + 1; return p[i:]\<close>.\<close>

definition basename :: "string \<Rightarrow> string" where
  "basename p = drop (nat (rfind CHR ''/'' p + 1)) p"

text \<open>\<^verbatim>\<open>os.path.join(a, b)\<close>.\<close>

definition path_join :: "string \<Rightarrow> string \<Rightarrow> string" where
  "path_join a b =
     (if take 1 b = ''/'' then b
      else if a = [] \<or> last a = CHR ''/'' then a @ b
      else a @ ''/'' @ b)"

text \<open>
  \<^verbatim>\<open>os.path.splitext\<close>: the extension starts at the last dot, when that dot comes
  after the last separator and some character of the file name before it is not a dot.
\<close>

definition splitext :: "string \<Rightarrow> string \<times> string" where
  "splitext p =
     (let sepIndex = rfind CHR ''/'' p;
          dotIndex = rfind CHR ''.'' p
      in if dotIndex > sepIndex \<and>
            list_ex (\<lambda>c. c \<noteq> CHR ''.'')
              (take (nat (dotIndex - (sepIndex + 1))) (drop (nat (sepIndex + 1)) p))
         then (take (nat dotIndex) p, drop (nat dotIndex) p)
         else (p, []))"

text \<open>\<^verbatim>\<open>s.lower()\<close>, on ASCII letters.\<close>

definition lower_ch :: "char \<Rightarrow> char" where
  "lower_ch c =
     (if c \<in> set ''ABCDEFGHIJKLMNOPQRSTUVWXYZ'' then char_of (of_char c + (32::nat)) else c)"

definition lower :: "string \<Rightarrow> string" where
  "lower s = map lower_ch s"

text \<open>\<^verbatim>\<open>s.replace(a, b)\<close> for single characters.\<close>

definition replace_ch :: "char \<Rightarrow> char \<Rightarrow> string \<Rightarrow> string" where
  "replace_ch a b s = map (\<lambda>c. if c = a then b else c) s"

text \<open>\<^verbatim>\<open>s.strip(cs)\<close>.\<close>

definition strip_chars :: "string \<Rightarrow> string \<Rightarrow> string" where
  "strip_chars cs s =
     rev (dropWhile (\<lambda>c. c \<in> set cs) (rev (dropWhile (\<lambda>c. c \<in> set cs) s)))"

text \<open>The ASCII characters for which \<^verbatim>\<open>str.isspace\<close> holds.\<close>

definition is_space :: "char \<Rightarrow> bool" where
  "is_space c =
     (c \<in> set [CHR '' '', CHR 0x09, CHR 0x0A, CHR 0x0B, CHR 0x0C, CHR 0x0D,
                CHR 0x1C, CHR 0x1D, CHR 0x1E, CHR 0x1F])"

text \<open>\<^verbatim>\<open>s.split()\<close>: the maximal runs without whitespace; \<open>cur\<close> is the run being read.\<close>

fun split_ws :: "string \<Rightarrow> string \<Rightarrow> string list" where
  "split_ws cur [] = (if cur = [] then [] else [cur])"
| "split_ws cur (c # cs) =
     (if is_space c
      then (if cur = [] then split_ws [] cs else cur # split_ws [] cs)
      else split_ws (cur @ [c]) cs)"

text \<open>\<^verbatim>\<open>sep.join(ws)\<close>.\<close>

fun join_str :: "string \<Rightarrow> string list \<Rightarrow> string" where
  "join_str sep [] = []"
| "join_str sep [w] = w"
| "join_str sep (w # ws) = w @ sep @ join_str sep ws"

definition is_ascii :: "char \<Rightarrow> bool" where
  "is_ascii c = (of_char c < (128::nat))"

text \<open>The characters that the pattern \<^verbatim>\<open>[^A-Za-z0-9_.-]\<close> does not remove.\<close>

definition safe_ch :: "char \<Rightarrow> bool" where
  "safe_ch c =
     (c \<in> set ''ABCDEFGHIJKLMNOPQRSTUVWXYZabcdefghijklmnopqrstuvwxyz0123456789_.-'')"

text \<open>
  \<^verbatim>\<open>werkzeug.utils.secure_filename\<close> (the library's function, on a POSIX system):
  normalise to ASCII, which leaves an ASCII string as it is; replace the path separator
  by a space; join the whitespace-separated words with \<open>_\<close>; remove every character
  outside \<^verbatim>\<open>[A-Za-z0-9_.-]\<close>; strip dots and underscores from both ends.
\<close>

definition secure_filename :: "env \<Rightarrow> string \<Rightarrow> string" where
  "secure_filename env filename =
     (let ascii = (if list_all is_ascii filename then filename else nfkd_ascii env filename);
          spaced = replace_ch CHR ''/'' CHR '' '' ascii
      in strip_chars ''._'' (filter safe_ch (join_str ''_'' (split_ws [] spaced))))"

section \<open>Naming stored files\<close>

text \<open>\<^verbatim>\<open>strftime("%Y%m%d_%H%M%S_%f")\<close>.\<close>

definition strftime :: "datetime \<Rightarrow> string" where
  "strftime d =
     zpad 4 (year d) @ zpad 2 (month d) @ zpad 2 (day d) @ ''_'' @
     zpad 2 (hour d) @ zpad 2 (minute d) @ zpad 2 (second d) @ ''_'' @
     zpad 6 (microsecond d)"

text \<open>\<^verbatim>\<open>unique_name\<close> (lines 19-22); \<open>tick\<close> counts the clock readings made before.\<close>

definition unique_name :: "env \<Rightarrow> nat \<Rightarrow> string \<Rightarrow> string \<Rightarrow> string" where
  "unique_name env tick prefix orig_filename =
     (let ts = strftime (now env tick);
          ext = snd (splitext orig_filename)
      in prefix @ ''_'' @ ts @ (if ext = [] then ''.jpg'' else ext))"

definition UPLOAD_FOLDER :: string where
  "UPLOAD_FOLDER = ''static/uploads''"

definition OUTPUT_FOLDER :: string where
  "OUTPUT_FOLDER = ''static/outputs''"

section \<open>Requests and responses\<close>

text \<open>A \<^verbatim>\<open>FileStorage\<close> of \<^verbatim>\<open>request.files\<close>.\<close>

record upload =
  filename :: string
  content :: bytes

text \<open>
  \<^verbatim>\<open>request.args\<close>, \<^verbatim>\<open>request.form\<close> (the first value of each key) and
  \<^verbatim>\<open>request.files\<close> (all the values of each key).
\<close>

record request =
  args :: "string \<rightharpoonup> string"
  form :: "string \<rightharpoonup> string"
  files :: "string \<rightharpoonup> upload list"

text \<open>One dictionary of a detection (lines 133-139).\<close>

record detection =
  class_id :: int
  class_name :: string
  confidence :: real
  x1 :: real
  y1 :: real
  x2 :: real
  y2 :: real

text \<open>
  One dictionary of \<^verbatim>\<open>results_data\<close> (lines 140-156). The key of the path is
  \<^verbatim>\<open>image_path\<close> for an image and \<^verbatim>\<open>video_path\<close> for a video.
\<close>

datatype artifact = image_path string | video_path string

record result_entry =
  upload_name :: string
  reference :: artifact
  conf_used :: real
  iou_used :: real
  detections :: "detection list"
  is_video :: bool

datatype body = Text string | Stream generator | ResultPage "result_entry list"

record response =
  status :: nat
  mimetype :: string
  body :: body

text \<open>\<^verbatim>\<open>return text, code\<close> of a view.\<close>

definition text_response :: "string \<Rightarrow> nat \<Rightarrow> response" where
  "text_response t code = \<lparr>status = code, mimetype = ''text/html'', body = Text t\<rparr>"

text \<open>\<^verbatim>\<open>Response(generate_video_frames(...), mimetype=...)\<close>.\<close>

definition stream_response :: "video_source \<Rightarrow> real \<Rightarrow> real \<Rightarrow> response" where
  "stream_response video_source conf iou =
     \<lparr>status = 200, mimetype = ''multipart/x-mixed-replace; boundary=frame'',
      body = Stream (Created video_source conf iou)\<rparr>"

text \<open>\<^verbatim>\<open>float(d.get(key, default))\<close> and \<^verbatim>\<open>int(d.get(key, default))\<close>.\<close>

definition get_float :: "env \<Rightarrow> (string \<rightharpoonup> string) \<Rightarrow> string \<Rightarrow> real \<Rightarrow> exn + real" where
  "get_float env d key dflt =
     (case d key of
        None \<Rightarrow> Inr dflt
      | Some s \<Rightarrow> (case float_str env s of None \<Rightarrow> Inl ValueError | Some x \<Rightarrow> Inr x))"

definition get_int :: "env \<Rightarrow> (string \<rightharpoonup> string) \<Rightarrow> string \<Rightarrow> int \<Rightarrow> exn + int" where
  "get_int env d key dflt =
     (case d key of
        None \<Rightarrow> Inr dflt
      | Some s \<Rightarrow> (case int_str env s of None \<Rightarrow> Inl ValueError | Some x \<Rightarrow> Inr x))"

section \<open>The streaming views\<close>

text \<open>\<^verbatim>\<open>video_feed\<close> (lines 69-75).\<close>

definition video_feed :: "env \<Rightarrow> request \<Rightarrow> exn + response" where
  "video_feed env req =
     (case get_float env (args req) ''conf'' 0.25 of
        Inl e \<Rightarrow> Inl e
      | Inr conf \<Rightarrow>
          (case get_float env (args req) ''iou'' 0.45 of
             Inl e \<Rightarrow> Inl e
           | Inr iou \<Rightarrow>
               (case get_int env (args req) ''cam'' 0 of
                  Inl e \<Rightarrow> Inl e
                | Inr cam_index \<Rightarrow> Inr (stream_response (CamIndex cam_index) conf iou))))"

text \<open>The path \<^verbatim>\<open>stream_video\<close> resolves its parameter to (lines 86-87).\<close>

definition video_path_of :: "env \<Rightarrow> string \<Rightarrow> string" where
  "video_path_of env video_file =
     path_join UPLOAD_FOLDER (secure_filename env (basename video_file))"

text \<open>\<^verbatim>\<open>stream_video\<close> (lines 77-93). The thresholds are parsed before the checks.\<close>

definition stream_video :: "env \<Rightarrow> request \<Rightarrow> exn + response" where
  "stream_video env req =
     (case get_float env (args req) ''conf'' 0.25 of
        Inl e \<Rightarrow> Inl e
      | Inr conf \<Rightarrow>
          (case get_float env (args req) ''iou'' 0.45 of
             Inl e \<Rightarrow> Inl e
           | Inr iou \<Rightarrow>
               (case args req ''video_file'' of
                  None \<Rightarrow> Inr (text_response ''Missing video file path'' 400)
                | Some video_file \<Rightarrow>
                    if video_file = [] then Inr (text_response ''Missing video file path'' 400)
                    else if \<not> isfile env (video_path_of env video_file)
                    then Inr (text_response
                                (''Video not found: '' @ video_path_of env video_file) 404)
                    else Inr (stream_response
                                (VideoFile (video_path_of env video_file)) conf iou))))"

text \<open>
  What Flask makes of a view: an exception that no handler catches becomes the response
  500 Internal Server Error.
\<close>

definition http_status :: "exn + response \<Rightarrow> nat" where
  "http_status r = (case r of Inl e \<Rightarrow> 500 | Inr resp \<Rightarrow> status resp)"

text \<open>
  Sending the body: only a generator body does anything, when the server iterates it,
  for a client that takes \<open>k\<close> chunks.
\<close>

fun send_body :: "env \<Rightarrow> nat \<Rightarrow> body \<Rightarrow> event list" where
  "send_body env k (Stream g) = fst (serve_stream env k g)"
| "send_body env k (Text t) = []"
| "send_body env k (ResultPage rs) = []"

definition serve :: "env \<Rightarrow> nat \<Rightarrow> exn + response \<Rightarrow> event list" where
  "serve env k r = (case r of Inl e \<Rightarrow> [] | Inr resp \<Rightarrow> send_body env k (body resp))"

section \<open>The batch view\<close>

text \<open>Lines 133-139: the dictionary of one box.\<close>

definition detection_of :: "env \<Rightarrow> box \<Rightarrow> detection" where
  "detection_of env b =
     (case b_xyxy b of
        (a1, b1, a2, b2) \<Rightarrow>
          \<lparr>class_id = b_cls b,
           class_name = (case CLASS_NAMES env (b_cls b) of
                           Some n \<Rightarrow> n
                         | None \<Rightarrow> str_int (b_cls b)),
           confidence = b_conf b,
           x1 = a1, y1 = b1, x2 = a2, y2 = b2\<rparr>)"

text \<open>Lines 126-139: \<^verbatim>\<open>dets\<close>, in the order of the detector's boxes.\<close>

definition dets_of :: "env \<Rightarrow> yolo_result \<Rightarrow> detection list" where
  "dets_of env r =
     (case boxes r of
        None \<Rightarrow> []
      | Some bs \<Rightarrow> if length bs > 0 then map (detection_of env) bs else [])"

text \<open>Line 115.\<close>

definition is_video_ext :: "string \<Rightarrow> bool" where
  "is_video_ext ext = (ext \<in> set [''.mp4'', ''.avi'', ''.mov'', ''.mkv''])"

text \<open>\<^verbatim>\<open>'/' + path.replace('\\', '/')\<close>.\<close>

definition url_of :: "string \<Rightarrow> string" where
  "url_of path = ''/'' @ replace_ch (CHR 0x5C) CHR ''/'' path"

text \<open>\<^verbatim>\<open>plotted_bgr[:, :, ::-1]\<close>.\<close>

definition bgr_to_rgb :: "image \<Rightarrow> image" where
  "bgr_to_rgb img = map (map (\<lambda>(b, g, r). (r, g, b))) img"

text \<open>
  The body of the loop over the files for one file with a name (lines 110-156). It
  returns the events, the number of clock readings made so far, and the entry added to
  \<^verbatim>\<open>results_data\<close> or the exception that leaves the view.
\<close>

definition predict_file ::
  "env \<Rightarrow> nat \<Rightarrow> real \<Rightarrow> real \<Rightarrow> upload \<Rightarrow> event list \<times> nat \<times> (exn + result_entry)" where
  "predict_file env tick conf iou file =
     (let safe_name = secure_filename env (filename file);
          in_name = unique_name env tick ''in'' safe_name;
          in_path = path_join UPLOAD_FOLDER in_name;
          ext = lower (snd (splitext safe_name))
      in if \<not> is_video_ext ext
         then (case model_predict env (FilePath in_path) conf iou of
                 Inl e \<Rightarrow> ([EvSave in_path, EvPredict (FilePath in_path)], tick + 1, Inl e)
               | Inr results \<Rightarrow>
                   (case results of
                      [] \<Rightarrow> ([EvSave in_path, EvPredict (FilePath in_path)], tick + 1,
                             Inl IndexError)
                    | r # _ \<Rightarrow>
                        (case plot env r of
                           Inl e \<Rightarrow> ([EvSave in_path, EvPredict (FilePath in_path)], tick + 1,
                                     Inl e)
                         | Inr plotted_bgr \<Rightarrow>
                             (let plotted_rgb = bgr_to_rgb plotted_bgr;
                                  out_name = unique_name env (tick + 1) ''out'' safe_name;
                                  out_path = path_join OUTPUT_FOLDER out_name
                              in ([EvSave in_path, EvPredict (FilePath in_path),
                                   EvWrite out_path plotted_rgb],
                                  tick + 2,
                                  Inr \<lparr>upload_name = safe_name,
                                       reference = image_path (url_of out_path),
                                       conf_used = conf,
                                       iou_used = iou,
                                       detections = dets_of env r,
                                       is_video = False\<rparr>)))))
         else ([EvSave in_path], tick + 1,
               Inr \<lparr>upload_name = safe_name,
                    reference = video_path (url_of in_path),
                    conf_used = conf,
                    iou_used = iou,
                    detections = [],
                    is_video = True\<rparr>))"

text \<open>The loop over the files (lines 107-156); a file without a name is passed over.\<close>

fun predict_loop ::
  "env \<Rightarrow> nat \<Rightarrow> real \<Rightarrow> real \<Rightarrow> upload list \<Rightarrow> event list \<times> (exn + result_entry list)" where
  "predict_loop env tick conf iou [] = ([], Inr [])"
| "predict_loop env tick conf iou (file # rest) =
     (if filename file = [] then predict_loop env tick conf iou rest
      else (case predict_file env tick conf iou file of
              (evs, tick', Inl e) \<Rightarrow> (evs, Inl e)
            | (evs, tick', Inr entry) \<Rightarrow>
                (case predict_loop env tick' conf iou rest of
                   (evs', Inl e) \<Rightarrow> (evs @ evs', Inl e)
                 | (evs', Inr results_data) \<Rightarrow> (evs @ evs', Inr (entry # results_data)))))"

text \<open>\<^verbatim>\<open>predict\<close> (lines 95-157). The thresholds are parsed after the checks.\<close>

definition predict :: "env \<Rightarrow> request \<Rightarrow> event list \<times> (exn + response)" where
  "predict env req =
     (case files req ''file'' of
        None \<Rightarrow> ([], Inr (text_response ''No file uploaded'' 400))
      | Some fs \<Rightarrow>
          if fs = [] \<or> list_all (\<lambda>f. filename f = []) fs
          then ([], Inr (text_response ''No selected files'' 400))
          else (case get_float env (form req) ''conf'' 0.25 of
                  Inl e \<Rightarrow> ([], Inl e)
                | Inr conf \<Rightarrow>
                    (case get_float env (form req) ''iou'' 0.45 of
                       Inl e \<Rightarrow> ([], Inl e)
                     | Inr iou \<Rightarrow>
                         (case predict_loop env 0 conf iou fs of
                            (evs, Inl e) \<Rightarrow> (evs, Inl e)
                          | (evs, Inr results_data) \<Rightarrow>
                              (evs, Inr \<lparr>status = 200, mimetype = ''text/html'',
                                         body = ResultPage results_data\<rparr>)))))"

text \<open>
  Whether lines 34-37 get a frame through to an encoded buffer, and the buffer.
\<close>

definition encodes_ok :: "env \<Rightarrow> real \<Rightarrow> real \<Rightarrow> image \<Rightarrow> bool" where
  "encodes_ok env conf iou frame_bgr =
     (case snd (annotate_encode env conf iou frame_bgr) of
        Inl e \<Rightarrow> False
      | Inr (ok, buffer) \<Rightarrow> ok)"

definition jpeg_of :: "env \<Rightarrow> real \<Rightarrow> real \<Rightarrow> image \<Rightarrow> bytes" where
  "jpeg_of env conf iou frame_bgr =
     (case snd (annotate_encode env conf iou frame_bgr) of
        Inl e \<Rightarrow> []
      | Inr (ok, buffer) \<Rightarrow> buffer)"

text \<open>
  A threshold that was supplied and that \<^verbatim>\<open>float\<close> does not accept.
\<close>

definition malformed :: "env \<Rightarrow> (string \<rightharpoonup> string) \<Rightarrow> string \<Rightarrow> bool" where
  "malformed env d key = (case d key of None \<Rightarrow> False | Some s \<Rightarrow> float_str env s = None)"

section \<open>A concrete world\<close>

text \<open>
  A small environment to run the program in. A frame is a one-pixel image; its blue
  value decides what becomes of it: the detector raises on 7, the plot raises on 8, the
  encoder reports failure on 9, and every other frame encodes to one byte.
\<close>

definition px :: "nat \<Rightarrow> image" where
  "px n = [[(n, 0, 0)]]"

definition blue :: "image \<Rightarrow> nat" where
  "blue img = (case img of ((b, g, r) # _) # _ \<Rightarrow> b | _ \<Rightarrow> 0)"

definition demo_box :: box where
  "demo_box = \<lparr>b_cls = 0, b_conf = 0.9, b_xyxy = (1, 2, 3, 4)\<rparr>"

definition demo_predict :: "predict_input \<Rightarrow> real \<Rightarrow> real \<Rightarrow> exn + yolo_result list" where
  "demo_predict inp conf iou =
     (case inp of
        FrameArray img \<Rightarrow>
          if blue img = 7 then Inl (LibraryError ''predict'')
          else Inr [\<lparr>orig_img = img, boxes = Some [demo_box]\<rparr>]
      | FilePath p \<Rightarrow> Inr [\<lparr>orig_img = px 1, boxes = Some [demo_box]\<rparr>])"

definition demo_plot :: "yolo_result \<Rightarrow> exn + image" where
  "demo_plot r = (if blue (orig_img r) = 8 then Inl (LibraryError ''plot'') else Inr (orig_img r))"

definition demo_imencode :: "image \<Rightarrow> exn + (bool \<times> bytes)" where
  "demo_imencode img = (if blue img = 9 then Inr (False, []) else Inr (True, [char_of (blue img)]))"

definition demo_env :: env where
  "demo_env =
     \<lparr>isOpened = (\<lambda>s. s = CamIndex 0 \<or> s = VideoFile ''static/uploads/clip.mp4''),
      frames = (\<lambda>s. if s = CamIndex 0 then [px 1, px 9, px 2, px 8, px 3]
                     else if s = VideoFile ''static/uploads/clip.mp4'' then [px 1, px 2, px 3]
                     else []),
      model_predict = demo_predict,
      plot = demo_plot,
      imencode = demo_imencode,
      float_str = map_of [(''0.25'', 0.25), (''0.45'', 0.45), (''0.5'', 0.5), (''0.6'', 0.6)],
      int_str = map_of [(''0'', 0), (''1'', 1)],
      nfkd_ascii = filter is_ascii,
      isfile = (\<lambda>p. p = ''static/uploads/clip.mp4''),
      now = (\<lambda>n. \<lparr>year = 2024, month = 5, day = 17, hour = 9, minute = 30,
                   second = 15, microsecond = n\<rparr>),
      CLASS_NAMES = map_of [(0, ''person'')]\<rparr>"

definition demo_request :: request where
  "demo_request = \<lparr>args = Map.empty, form = Map.empty, files = Map.empty\<rparr>"

section \<open>Traces of the generator\<close>

lemma annotate_encode_events:
  "annotate_encode env conf iou f = (evs, r) \<Longrightarrow>
     count_list evs EvRelease = 0 \<and> filter is_open evs = [] \<and> chunks evs = [] \<and>
     encoded evs = (case r of Inr (True, buffer) \<Rightarrow> [buffer] | _ \<Rightarrow> [])"
  by (auto simp: annotate_encode_def split: sum.splits list.splits prod.splits)

lemma count_list_append_release [simp]:
  "count_list (xs @ ys) EvRelease = count_list xs EvRelease + count_list ys EvRelease"
  by (induction xs) auto

lemma chunks_append [simp]: "chunks (xs @ ys) = chunks xs @ chunks ys"
  by (induction xs rule: chunks.induct) auto

lemma encoded_append [simp]: "encoded (xs @ ys) = encoded xs @ encoded ys"
  by (induction xs rule: encoded.induct) auto

lemma frame_loop_events:
  "frame_loop env conf iou fs = (evs, x) \<Longrightarrow>
     count_list evs EvRelease = 0 \<and> filter is_open evs = [] \<and>
     chunks evs = map frame_chunk (encoded evs)"
proof (induction fs arbitrary: evs x)
  case Nil
  then show ?case by auto
next
  case (Cons f fs)
  obtain ea r where ae: "annotate_encode env conf iou f = (ea, r)" by force
  note A = annotate_encode_events [OF ae]
  show ?case
  proof (cases r)
    case (Inl e)
    with Cons.prems ae A show ?thesis by auto
  next
    case (Inr p)
    obtain ok buffer where p: "p = (ok, buffer)" by force
    obtain el xl where fl: "frame_loop env conf iou fs = (el, xl)" by force
    note IH = Cons.IH [OF fl]
    show ?thesis
      using Cons.prems ae A Inr p fl IH by (cases ok) auto
  qed
qed

lemma frame_loop_yielded:
  "frame_loop env conf iou fs = (evs, Yielded c rest) \<Longrightarrow> evs \<noteq> [] \<and> last evs = EvYield c"
proof (induction fs arbitrary: evs)
  case Nil
  then show ?case by auto
next
  case (Cons f fs)
  then show ?case
    by (auto split: prod.splits sum.splits if_splits)
qed


lemma resume_events:
  "resume env conf iou pending = (evs, g, r) \<Longrightarrow>
     filter is_open evs = [] \<and> chunks evs = map frame_chunk (encoded evs) \<and>
     (case r of
        Item c \<Rightarrow> count_list evs EvRelease = 0 \<and> (\<exists>rest. g = Suspended rest conf iou)
      | _ \<Rightarrow> count_list evs EvRelease = 1 \<and> g = Closed \<and> last evs = EvRelease)"
proof -
  assume a: "resume env conf iou pending = (evs, g, r)"
  obtain el x where fl: "frame_loop env conf iou pending = (el, x)" by force
  note F = frame_loop_events [OF fl]
  show ?thesis
    using a fl F by (cases x) (auto simp: resume_def)
qed

lemma serve_suspended:
  "serve_stream env k (Suspended pending conf iou) = (evs, x) \<Longrightarrow>
     filter is_open evs = [] \<and> chunks evs = map frame_chunk (encoded evs) \<and>
     count_list evs EvRelease = 1 \<and> last evs = EvRelease"
proof (induction k arbitrary: pending evs x)
  case 0
  then show ?case by auto
next
  case (Suc k)
  obtain e1 g r where n: "resume env conf iou pending = (e1, g, r)"
    using prod_cases3 by blast
  note R = resume_events [OF n]
  show ?case
  proof (cases r)
    case (Item c)
    with R obtain rest where g: "g = Suspended rest conf iou" by auto
    obtain e2 y where s: "serve_stream env k (Suspended rest conf iou) = (e2, y)" by force
    note IH = Suc.IH [OF s]
    have e2: "e2 \<noteq> []" using IH by auto
    show ?thesis
      using Suc.prems n R Item g s IH e2 by auto
  next
    case StopIteration
    with Suc.prems n R show ?thesis by auto
  next
    case (Raises e)
    with Suc.prems n R show ?thesis by auto
  qed
qed

lemma serve_created:
  assumes "isOpened env video_source"
    and "serve_stream env (Suc k) (Created video_source conf iou) = (evs, x)"
  shows "filter is_open evs = [EvOpen video_source] \<and> hd evs = EvOpen video_source \<and>
         chunks evs = map frame_chunk (encoded evs) \<and>
         count_list evs EvRelease = 1 \<and> last evs = EvRelease"
proof -
  obtain e1 g r where n: "resume env conf iou (frames env video_source) = (e1, g, r)"
    using prod_cases3 by blast
  note R = resume_events [OF n]
  show ?thesis
  proof (cases r)
    case (Item c)
    with R obtain rest where g: "g = Suspended rest conf iou" by auto
    obtain e2 y where s: "serve_stream env k (Suspended rest conf iou) = (e2, y)" by force
    note S = serve_suspended [OF s]
    have e2: "e2 \<noteq> []" using S by auto
    show ?thesis
      using assms n R Item g s S e2 by auto
  next
    case StopIteration
    with assms n R show ?thesis by auto
  next
    case (Raises e)
    with assms n R show ?thesis by auto
  qed
qed

lemma serve_chunks:
  "chunks (fst (serve_stream env k g)) = map frame_chunk (encoded (fst (serve_stream env k g)))"
proof (cases g)
  case (Created s c i)
  show ?thesis
  proof (cases k)
    case 0
    with Created show ?thesis by simp
  next
    case (Suc j)
    show ?thesis
    proof (cases "isOpened env s")
      case True
      obtain evs x where e: "serve_stream env (Suc j) (Created s c i) = (evs, x)" by force
      from serve_created [OF True e] e Created Suc show ?thesis by simp
    next
      case False
      with Created Suc show ?thesis by simp
    qed
  qed
next
  case (Suspended p c i)
  obtain evs x where e: "serve_stream env k (Suspended p c i) = (evs, x)" by force
  from serve_suspended [OF e] e Suspended show ?thesis by simp
next
  case Closed
  then show ?thesis by (cases k) auto
qed

lemma frame_chunk_not_terminator: "take 9 (frame_chunk b) \<noteq> ''--frame--''"
  by (simp add: frame_chunk_def CRLF_def)

lemma resume_nil: "resume env conf iou [] = ([EvRead False, EvRelease], Closed, StopIteration)"
  by (simp add: resume_def)

lemma frame_loop_ok:
  assumes "encodes_ok env conf iou f"
  shows "frame_loop env conf iou (f # fs) =
           (EvRead True # fst (annotate_encode env conf iou f) @
              [EvYield (frame_chunk (jpeg_of env conf iou f))],
            Yielded (frame_chunk (jpeg_of env conf iou f)) fs)"
  using assms
  by (auto simp: encodes_ok_def jpeg_of_def split: sum.splits prod.splits)

lemma annotate_encode_chunks: "chunks (fst (annotate_encode env conf iou f)) = []"
  using annotate_encode_events [of env conf iou f] by (cases "annotate_encode env conf iou f") auto

lemma resume_ok:
  assumes "encodes_ok env conf iou f"
  shows "resume env conf iou (f # fs) =
           (EvRead True # fst (annotate_encode env conf iou f) @
              [EvYield (frame_chunk (jpeg_of env conf iou f))],
            Suspended fs conf iou, Item (frame_chunk (jpeg_of env conf iou f)))"
  unfolding resume_def frame_loop_ok [OF assms] by simp

lemma serve_all_ok:
  assumes "\<forall>f \<in> set pending. encodes_ok env conf iou f" and "length pending < k"
  shows "snd (serve_stream env k (Suspended pending conf iou)) = Exhausted \<and>
         chunks (fst (serve_stream env k (Suspended pending conf iou))) =
           map (\<lambda>f. frame_chunk (jpeg_of env conf iou f)) pending"
  using assms
proof (induction pending arbitrary: k)
  case Nil
  then obtain j where "k = Suc j" by (cases k) auto
  then show ?case by (simp add: resume_nil)
next
  case (Cons f fs)
  then obtain j where k: "k = Suc j" and j: "length fs < j" by (cases k) auto
  from Cons.prems have ok: "encodes_ok env conf iou f" and rest: "\<forall>f \<in> set fs. encodes_ok env conf iou f"
    by auto
  obtain e2 y where s: "serve_stream env j (Suspended fs conf iou) = (e2, y)" by force
  from Cons.IH [OF rest j] s have IH: "y = Exhausted"
    "chunks e2 = map (\<lambda>f. frame_chunk (jpeg_of env conf iou f)) fs" by auto
  show ?case
    using k IH s by (simp add: resume_ok [OF ok] annotate_encode_chunks)
qed

lemma serve_view_chunks:
  "chunks (serve env k r) = map frame_chunk (encoded (serve env k r))"
proof (cases r)
  case (Inl e)
  then show ?thesis by (simp add: serve_def)
next
  case (Inr resp)
  then show ?thesis
    by (cases "body resp") (simp_all add: serve_def serve_chunks)
qed

lemma serve_view_no_terminator:
  "c \<in> set (chunks (serve env k r)) \<Longrightarrow> take 9 c \<noteq> ''--frame--''"
  unfolding serve_view_chunks using frame_chunk_not_terminator by auto

lemma video_feed_stream:
  "video_feed env req = Inr resp \<Longrightarrow>
     status resp = 200 \<and> mimetype resp = ''multipart/x-mixed-replace; boundary=frame'' \<and>
     (\<exists>s c i. body resp = Stream (Created s c i))"
  by (auto simp: video_feed_def stream_response_def split: sum.splits)

lemma stream_video_stream:
  "stream_video env req = Inr resp \<Longrightarrow> body resp = Stream g \<Longrightarrow>
     status resp = 200 \<and> mimetype resp = ''multipart/x-mixed-replace; boundary=frame''"
  by (auto simp: stream_video_def stream_response_def text_response_def
      split: sum.splits option.splits if_splits)

section \<open>Parsing and the views\<close>

lemma get_float_absent: "d key = None \<Longrightarrow> get_float env d key dflt = Inr dflt"
  by (simp add: get_float_def)

lemma get_float_malformed: "malformed env d key \<Longrightarrow> get_float env d key dflt = Inl ValueError"
  by (auto simp: get_float_def malformed_def split: option.splits)

lemma get_float_cases: "get_float env d key dflt = Inl e \<Longrightarrow> e = ValueError \<and> malformed env d key"
  by (auto simp: get_float_def malformed_def split: option.splits)

lemma get_float_wellformed:
  "\<not> malformed env d key \<Longrightarrow> \<exists>x. get_float env d key dflt = Inr x"
  by (auto simp: get_float_def malformed_def split: option.splits)

lemma predict_file_thresholds:
  "predict_file env tick conf iou file = (evs, tick', Inr entry) \<Longrightarrow>
     conf_used entry = conf \<and> iou_used entry = iou"
  by (auto simp: predict_file_def Let_def split: if_splits sum.splits list.splits)

lemma predict_loop_thresholds:
  "predict_loop env tick conf iou fs = (evs, Inr rs) \<Longrightarrow>
     \<forall>r \<in> set rs. conf_used r = conf \<and> iou_used r = iou"
proof (induction fs arbitrary: tick evs rs)
  case Nil
  then show ?case by simp
next
  case (Cons f fs)
  show ?case
  proof (cases "filename f = []")
    case True
    with Cons show ?thesis by simp
  next
    case False
    obtain e1 t1 r1 where pf: "predict_file env tick conf iou f = (e1, t1, r1)"
      using prod_cases3 by blast
    show ?thesis
    proof (cases r1)
      case (Inl e)
      with Cons.prems False pf show ?thesis by simp
    next
      case (Inr entry)
      obtain e2 r2 where pl: "predict_loop env t1 conf iou fs = (e2, r2)" by force
      show ?thesis
      proof (cases r2)
        case (Inl e)
        with Cons.prems False pf Inr pl show ?thesis by simp
      next
        case (Inr rest)
        from Cons.IH [OF pl [unfolded Inr]] have "\<forall>r \<in> set rest. conf_used r = conf \<and> iou_used r = iou" .
        moreover from predict_file_thresholds [OF pf [unfolded \<open>r1 = Inr entry\<close>]]
        have "conf_used entry = conf \<and> iou_used entry = iou" .
        ultimately show ?thesis
          using Cons.prems False pf \<open>r1 = Inr entry\<close> pl Inr by auto
      qed
    qed
  qed
qed

section \<open>Paths and file names\<close>

lemma length_takeWhile_mem:
  "x \<in> set xs \<Longrightarrow> length (takeWhile (\<lambda>c. c \<noteq> x) xs) < length xs"
  by (induction xs) auto

lemma takeWhile_no_sep:
  "CHR ''/'' \<notin> set p \<Longrightarrow> takeWhile (\<lambda>c. c \<noteq> CHR ''/'') (rev p) = rev p"
  by (rule takeWhile_eq_all_conv [THEN iffD2]) auto

lemma basename_rev: "basename p = rev (takeWhile (\<lambda>c. c \<noteq> CHR ''/'') (rev p))"
proof (cases "CHR ''/'' \<in> set p")
  case False
  have b: "basename p = p" using False by (simp add: basename_def rfind_def)
  show ?thesis unfolding b takeWhile_no_sep [OF False] by simp
next
  case True
  let ?n = "length (takeWhile (\<lambda>c. c \<noteq> CHR ''/'') (rev p))"
  have lt: "?n < length p"
    using True length_takeWhile_mem [of "CHR ''/''" "rev p"] by simp
  have "nat (rfind CHR ''/'' p + 1) = length p - ?n"
    using True lt by (simp add: rfind_def)
  then have "basename p = drop (length p - ?n) p" by (simp add: basename_def)
  also have "\<dots> = rev (take ?n (rev p))" by (simp add: rev_take)
  also have "take ?n (rev p) = takeWhile (\<lambda>c. c \<noteq> CHR ''/'') (rev p)"
    by (rule takeWhile_eq_take [symmetric])
  finally show ?thesis .
qed

lemma basename_no_sep:
  assumes "CHR ''/'' \<notin> set p"
  shows "basename p = p"
  unfolding basename_rev takeWhile_no_sep [OF assms] by simp

lemma basename_dir: "basename (dir @ ''/'' @ v) = basename v"
proof -
  let ?P = "\<lambda>c. c \<noteq> CHR ''/''"
  have r: "rev (dir @ ''/'' @ v) = rev v @ (CHR ''/'' # rev dir)" by simp
  have "takeWhile ?P (rev v @ (CHR ''/'' # rev dir)) = takeWhile ?P (rev v)"
  proof (cases "CHR ''/'' \<in> set v")
    case True
    then have "CHR ''/'' \<in> set (rev v)" by simp
    then show ?thesis by (rule takeWhile_append1) simp
  next
    case False
    have "takeWhile ?P (rev v @ (CHR ''/'' # rev dir)) = rev v @ takeWhile ?P (CHR ''/'' # rev dir)"
      by (rule takeWhile_append2) (use False in auto)
    then show ?thesis by (simp add: takeWhile_no_sep [OF False])
  qed
  then show ?thesis unfolding basename_rev r by simp
qed

lemma strip_chars_subset: "set (strip_chars cs s) \<subseteq> set s"
  unfolding strip_chars_def by (auto dest!: set_dropWhileD)

lemma strip_chars_last: "strip_chars cs s \<noteq> [] \<Longrightarrow> last (strip_chars cs s) \<notin> set cs"
  unfolding strip_chars_def
  using hd_dropWhile [of "\<lambda>c. c \<in> set cs" "rev (dropWhile (\<lambda>c. c \<in> set cs) s)"]
  by (simp add: last_rev)

lemma secure_filename_safe: "c \<in> set (secure_filename env name) \<Longrightarrow> safe_ch c"
  unfolding secure_filename_def Let_def
  using strip_chars_subset by fastforce

lemma slash_not_safe: "\<not> safe_ch CHR ''/''"
  by (simp add: safe_ch_def)

lemma secure_filename_no_sep: "CHR ''/'' \<notin> set (secure_filename env name)"
  using secure_filename_safe slash_not_safe by blast

lemma secure_filename_not_dots:
  "secure_filename env name \<noteq> ''.'' \<and> secure_filename env name \<noteq> ''..''"
proof -
  have "secure_filename env name \<noteq> [] \<Longrightarrow> last (secure_filename env name) \<notin> set ''._''"
    unfolding secure_filename_def Let_def by (rule strip_chars_last)
  then show ?thesis by auto
qed

lemma path_join_upload:
  "CHR ''/'' \<notin> set name \<Longrightarrow> path_join UPLOAD_FOLDER name = UPLOAD_FOLDER @ ''/'' @ name"
  by (cases name) (auto simp: path_join_def UPLOAD_FOLDER_def)

lemma serve_stream_opens:
  assumes "EvOpen s' \<in> set (fst (serve_stream env k (Created s c i)))"
  shows "s' = s"
proof (cases k)
  case 0
  with assms show ?thesis by simp
next
  case (Suc j)
  show ?thesis
  proof (cases "isOpened env s")
    case False
    with assms Suc show ?thesis by simp
  next
    case True
    obtain evs x where e: "serve_stream env (Suc j) (Created s c i) = (evs, x)" by force
    from serve_created [OF True e] have f: "filter is_open evs = [EvOpen s]" by simp
    from assms Suc e have "EvOpen s' \<in> set (filter is_open evs)" by simp
    with f show ?thesis by simp
  qed
qed

section \<open>The claims\<close>

text \<open>
  Claim C1. When the capture source opens, every way of serving the stream releases it
  exactly once, as the last thing that happens: whether the generator is exhausted
  (the read returns no frame), an exception leaves the loop, or the consumer closes the
  generator after some chunks. Opens and releases are balanced; a generator that is
  closed before it was ever started (\<open>k = 0\<close>) has opened nothing and releases nothing.
\<close>

theorem release_exactly_once:
  assumes "isOpened env video_source"
  shows "count_list (fst (serve_stream env k (Created video_source conf iou))) EvRelease =
           length (filter is_open (fst (serve_stream env k (Created video_source conf iou)))) \<and>
         (0 < k \<longrightarrow>
            count_list (fst (serve_stream env k (Created video_source conf iou))) EvRelease = 1 \<and>
            filter is_open (fst (serve_stream env k (Created video_source conf iou))) =
              [EvOpen video_source] \<and>
            last (fst (serve_stream env k (Created video_source conf iou))) = EvRelease)"
proof (cases k)
  case 0
  then show ?thesis by simp
next
  case (Suc j)
  obtain evs x where s: "serve_stream env (Suc j) (Created video_source conf iou) = (evs, x)"
    by force
  from serve_created [OF assms s] Suc s show ?thesis by simp
qed

theorem release_exactly_once_witness:
  "isOpened demo_env (CamIndex 0) \<and>
   count_list (fst (serve_stream demo_env 1 (Created (CamIndex 0) 0.25 0.45))) EvRelease = 1 \<and>
   snd (serve_stream demo_env 1 (Created (CamIndex 0) 0.25 0.45)) = Cancelled \<and>
   count_list (fst (serve_stream demo_env 9 (Created (CamIndex 0) 0.25 0.45))) EvRelease = 1 \<and>
   snd (serve_stream demo_env 9 (Created (CamIndex 0) 0.25 0.45)) = Failed (LibraryError ''plot'')"
proof -
  have h: "isOpened demo_env (CamIndex 0)" by (simp add: demo_env_def)
  have e1: "snd (serve_stream demo_env 1 (Created (CamIndex 0) 0.25 0.45)) = Cancelled"
    by code_simp
  have e2: "snd (serve_stream demo_env 9 (Created (CamIndex 0) 0.25 0.45)) = Failed (LibraryError ''plot'')"
    by code_simp
  show ?thesis
    using h e1 e2 release_exactly_once [OF h, of 1 "0.25" "0.45"] release_exactly_once [OF h, of 9 "0.25" "0.45"]
    by simp
qed

text \<open>
  Claim C3. When the capture source does not open, the first \<^verbatim>\<open>next\<close> raises the
  \<^verbatim>\<open>RuntimeError\<close> of line 28: the whole trace of serving the stream is the attempt to
  open. No chunk is yielded, no frame is read (the loop is not entered) and release is
  not called; closing the finished generator afterwards does nothing.
\<close>

theorem open_failure_raises_before_any_chunk:
  assumes "\<not> isOpened env video_source"
  shows "gen_next env (Created video_source conf iou) =
           ([EvOpen video_source], Closed,
            Raises (RuntimeError (''Could not open video: '' @ str_source video_source))) \<and>
         serve_stream env (Suc k) (Created video_source conf iou) =
           ([EvOpen video_source],
            Failed (RuntimeError (''Could not open video: '' @ str_source video_source))) \<and>
         chunks (fst (serve_stream env n (Created video_source conf iou))) = [] \<and>
         \<not> list_ex is_read (fst (serve_stream env n (Created video_source conf iou))) \<and>
         EvRelease \<notin> set (fst (serve_stream env n (Created video_source conf iou))) \<and>
         gen_close (fst (snd (gen_next env (Created video_source conf iou)))) = ([], Closed)"
  using assms by (cases n) auto

theorem open_failure_raises_before_any_chunk_witness:
  "\<not> isOpened demo_env (CamIndex 3) \<and>
   serve_stream demo_env 5 (Created (CamIndex 3) 0.25 0.45) =
     ([EvOpen (CamIndex 3)], Failed (RuntimeError ''Could not open video: 3''))"
proof -
  have h: "\<not> isOpened demo_env (CamIndex 3)" by (simp add: demo_env_def)
  have s: "str_source (CamIndex 3) = ''3''" by code_simp
  show ?thesis
    using h s open_failure_raises_before_any_chunk [OF h, of "0.25" "0.45" 4 0]
    by (simp add: numeral_eq_Suc)
qed

text \<open>
  Claim C5. A file source that opens and whose N frames all encode, served to a
  consumer that does not stop early, yields exactly N chunks, the chunk of each stored
  frame in stored order, and then ends by \<^verbatim>\<open>StopIteration\<close>, not by an exception.
\<close>

theorem file_source_yields_every_frame:
  assumes "isOpened env (VideoFile path)"
    and "\<forall>f \<in> set (frames env (VideoFile path)). encodes_ok env conf iou f"
    and "length (frames env (VideoFile path)) < k"
  shows "snd (serve_stream env k (Created (VideoFile path) conf iou)) = Exhausted \<and>
         chunks (fst (serve_stream env k (Created (VideoFile path) conf iou))) =
           map (\<lambda>f. frame_chunk (jpeg_of env conf iou f)) (frames env (VideoFile path)) \<and>
         length (chunks (fst (serve_stream env k (Created (VideoFile path) conf iou)))) =
           length (frames env (VideoFile path))"
proof -
  obtain j where k: "k = Suc j" using assms(3) by (cases k) auto
  show ?thesis
  proof (cases "frames env (VideoFile path)")
    case Nil
    with assms(1) k show ?thesis by (simp add: resume_nil)
  next
    case (Cons f fs)
    with assms have ok: "encodes_ok env conf iou f" and rest: "\<forall>f \<in> set fs. encodes_ok env conf iou f"
      and j: "length fs < j" using k by auto
    obtain e2 y where s: "serve_stream env j (Suspended fs conf iou) = (e2, y)" by force
    from serve_all_ok [OF rest j] s have S: "y = Exhausted"
      "chunks e2 = map (\<lambda>f. frame_chunk (jpeg_of env conf iou f)) fs" by auto
    show ?thesis
      using assms(1) k Cons S s by (simp add: resume_ok [OF ok] annotate_encode_chunks)
  qed
qed


theorem file_source_yields_every_frame_witness:
  "isOpened demo_env (VideoFile ''static/uploads/clip.mp4'') \<and>
   list_all (encodes_ok demo_env 0.25 0.45)
     (frames demo_env (VideoFile ''static/uploads/clip.mp4'')) \<and>
   length (frames demo_env (VideoFile ''static/uploads/clip.mp4'')) < 4 \<and>
   snd (serve_stream demo_env 4 (Created (VideoFile ''static/uploads/clip.mp4'') 0.25 0.45)) =
     Exhausted \<and>
   length (chunks (fst (serve_stream demo_env 4
     (Created (VideoFile ''static/uploads/clip.mp4'') 0.25 0.45)))) = 3"
proof -
  have h1: "isOpened demo_env (VideoFile ''static/uploads/clip.mp4'')"
    by (simp add: demo_env_def)
  have fr: "frames demo_env (VideoFile ''static/uploads/clip.mp4'') = [px 1, px 2, px 3]"
    by (simp add: demo_env_def)
  have h2: "\<forall>f \<in> set (frames demo_env (VideoFile ''static/uploads/clip.mp4'')).
      encodes_ok demo_env 0.25 0.45 f"
    unfolding fr
    by (simp add: encodes_ok_def annotate_encode_def demo_env_def demo_predict_def
        demo_plot_def demo_imencode_def px_def blue_def)
  have h3: "length (frames demo_env (VideoFile ''static/uploads/clip.mp4'')) < 4"
    unfolding fr by simp
  show ?thesis
    using h1 h2 h3 file_source_yields_every_frame [OF h1 h2 h3] fr
    by (simp add: list_all_iff)
qed

text \<open>
  Claim C4, as stated, fails: an exception raised by the detector, by \<^verbatim>\<open>r.plot()\<close> or by
  the encoder is not caught, so it ends the loop instead of skipping the frame. Here
  the plot of the first frame raises; the second frame, which alone would be emitted,
  is never read.
\<close>

theorem annotation_failure_counterexample:
  "snd (annotate_encode demo_env 0.25 0.45 (px 8)) = Inl (LibraryError ''plot'') \<and>
   frame_loop demo_env 0.25 0.45 [px 8, px 3] =
     ([EvRead True, EvPredict (FrameArray (px 8))], Raised (LibraryError ''plot'')) \<and>
   chunks (fst (frame_loop demo_env 0.25 0.45 [px 3])) = [frame_chunk [char_of (3::nat)]]"
  by (simp add: annotate_encode_def demo_env_def demo_predict_def
        demo_plot_def demo_imencode_def px_def blue_def)

text \<open>
  Claim C4, amended. A frame for which \<^verbatim>\<open>cv2.imencode\<close> returns \<^verbatim>\<open>ok = False\<close> is skipped:
  the loop goes on with the next read and the frame adds no chunk. An exception raised
  while a frame is annotated or encoded is not caught: the capture is released and the
  exception leaves the generator. In every run the chunks emitted are exactly the
  framed buffers of the frames that were encoded with \<^verbatim>\<open>ok = True\<close>, in order, so there
  are as many chunks as successfully encoded frames.
\<close>

theorem encode_failure_skips_frame:
  "(snd (annotate_encode env conf iou f) = Inr (False, buffer) \<longrightarrow>
      frame_loop env conf iou (f # pending) =
        (EvRead True # fst (annotate_encode env conf iou f) @
           fst (frame_loop env conf iou pending),
         snd (frame_loop env conf iou pending)) \<and>
      chunks (fst (frame_loop env conf iou (f # pending))) =
        chunks (fst (frame_loop env conf iou pending))) \<and>
   (snd (annotate_encode env conf iou f) = Inl e \<longrightarrow>
      resume env conf iou (f # pending) =
        (EvRead True # fst (annotate_encode env conf iou f) @ [EvRelease], Closed, Raises e)) \<and>
   chunks (fst (serve_stream env k g)) = map frame_chunk (encoded (fst (serve_stream env k g))) \<and>
   length (chunks (fst (serve_stream env k g))) = length (encoded (fst (serve_stream env k g)))"
proof -
  have a: "snd (annotate_encode env conf iou f) = Inr (False, buffer) \<Longrightarrow>
      frame_loop env conf iou (f # pending) =
        (EvRead True # fst (annotate_encode env conf iou f) @
           fst (frame_loop env conf iou pending),
         snd (frame_loop env conf iou pending))"
    by (cases "annotate_encode env conf iou f"; cases "frame_loop env conf iou pending") simp
  have b: "snd (annotate_encode env conf iou f) = Inl e \<Longrightarrow>
      resume env conf iou (f # pending) =
        (EvRead True # fst (annotate_encode env conf iou f) @ [EvRelease], Closed, Raises e)"
    by (cases "annotate_encode env conf iou f") (simp add: resume_def)
  have c: "chunks (fst (serve_stream env k g)) =
      map frame_chunk (encoded (fst (serve_stream env k g)))"
    by (rule serve_chunks)
  have d: "length (chunks (fst (serve_stream env k g))) =
      length (encoded (fst (serve_stream env k g)))"
    by (simp add: c)
  show ?thesis using a b c d by (simp add: annotate_encode_chunks)
qed

theorem encode_failure_skips_frame_witness:
  "snd (annotate_encode demo_env 0.25 0.45 (px 9)) = Inr (False, []) \<and>
   chunks (fst (frame_loop demo_env 0.25 0.45 [px 9, px 2])) =
     chunks (fst (frame_loop demo_env 0.25 0.45 [px 2])) \<and>
   snd (annotate_encode demo_env 0.25 0.45 (px 8)) = Inl (LibraryError ''plot'') \<and>
   resume demo_env 0.25 0.45 [px 8, px 3] =
     ([EvRead True, EvPredict (FrameArray (px 8)), EvRelease], Closed,
      Raises (LibraryError ''plot''))"
proof -
  have h1: "snd (annotate_encode demo_env 0.25 0.45 (px 9)) = Inr (False, [])"
    by (simp add: annotate_encode_def demo_env_def demo_predict_def
        demo_plot_def demo_imencode_def px_def blue_def)
  have h2: "snd (annotate_encode demo_env 0.25 0.45 (px 8)) = Inl (LibraryError ''plot'')"
    by (simp add: annotate_encode_def demo_env_def demo_predict_def
        demo_plot_def demo_imencode_def px_def blue_def)
  have f2: "fst (annotate_encode demo_env 0.25 0.45 (px 8)) = [EvPredict (FrameArray (px 8))]"
    by (simp add: annotate_encode_def demo_env_def demo_predict_def
        demo_plot_def demo_imencode_def px_def blue_def)
  have a: "chunks (fst (frame_loop demo_env 0.25 0.45 [px 9, px 2])) =
     chunks (fst (frame_loop demo_env 0.25 0.45 [px 2]))"
    using h1 encode_failure_skips_frame
      [of demo_env "0.25" "0.45" "px 9" "[]" "[px 2]" "LibraryError ''plot''" 0 Closed]
    by blast
  have b: "resume demo_env 0.25 0.45 [px 8, px 3] =
     (EvRead True # fst (annotate_encode demo_env 0.25 0.45 (px 8)) @ [EvRelease], Closed,
      Raises (LibraryError ''plot''))"
    using h2 encode_failure_skips_frame
      [of demo_env "0.25" "0.45" "px 8" "[]" "[px 3]" "LibraryError ''plot''" 0 Closed]
    by blast
  show ?thesis
    using h1 h2 a b unfolding f2 by simp
qed

text \<open>
  Claim C6. A chunk is the bytes \<^verbatim>\<open>--frame\r\nContent-Type: image/jpeg\r\n\r\n\<close>, the JPEG
  buffer, and \<^verbatim>\<open>\r\n\<close>. Whatever \<^verbatim>\<open>video_feed\<close> and \<^verbatim>\<open>stream_video\<close> send as a
  streamed body consists of such chunks only, one for each encoded buffer, so that no
  chunk is the closing delimiter \<^verbatim>\<open>--frame--\<close>; and the streaming response has the
  content type \<^verbatim>\<open>multipart/x-mixed-replace; boundary=frame\<close>.
\<close>

theorem multipart_framing:
  "frame_chunk jpeg =
     ''--frame'' @ [CHR 0x0D, CHR 0x0A] @ ''Content-Type: image/jpeg'' @
     [CHR 0x0D, CHR 0x0A, CHR 0x0D, CHR 0x0A] @ jpeg @ [CHR 0x0D, CHR 0x0A] \<and>
   chunks (serve env k (video_feed env req)) =
     map frame_chunk (encoded (serve env k (video_feed env req))) \<and>
   chunks (serve env k (stream_video env req)) =
     map frame_chunk (encoded (serve env k (stream_video env req))) \<and>
   (\<forall>c \<in> set (chunks (serve env k (video_feed env req)) @
               chunks (serve env k (stream_video env req))).
      (\<exists>b. c = frame_chunk b) \<and> take 9 c \<noteq> ''--frame--'') \<and>
   (\<forall>resp. video_feed env req = Inr resp \<longrightarrow>
      mimetype resp = ''multipart/x-mixed-replace; boundary=frame'') \<and>
   (\<forall>resp g. stream_video env req = Inr resp \<and> body resp = Stream g \<longrightarrow>
      mimetype resp = ''multipart/x-mixed-replace; boundary=frame'')"
proof -
  have a: "frame_chunk jpeg =
     ''--frame'' @ [CHR 0x0D, CHR 0x0A] @ ''Content-Type: image/jpeg'' @
     [CHR 0x0D, CHR 0x0A, CHR 0x0D, CHR 0x0A] @ jpeg @ [CHR 0x0D, CHR 0x0A]"
    by (simp add: frame_chunk_def CRLF_def)
  have b: "\<And>r c. c \<in> set (chunks (serve env k r)) \<Longrightarrow> \<exists>b. c = frame_chunk b"
    unfolding serve_view_chunks by auto
  have c: "\<forall>c \<in> set (chunks (serve env k (video_feed env req)) @
               chunks (serve env k (stream_video env req))).
      (\<exists>b. c = frame_chunk b) \<and> take 9 c \<noteq> ''--frame--''"
    using b serve_view_no_terminator by auto
  have d: "\<forall>resp. video_feed env req = Inr resp \<longrightarrow>
      mimetype resp = ''multipart/x-mixed-replace; boundary=frame''"
    using video_feed_stream by blast
  have e: "\<forall>resp g. stream_video env req = Inr resp \<and> body resp = Stream g \<longrightarrow>
      mimetype resp = ''multipart/x-mixed-replace; boundary=frame''"
    using stream_video_stream by blast
  show ?thesis
    using a c d e serve_view_chunks [of env k "video_feed env req"]
      serve_view_chunks [of env k "stream_video env req"] by blast
qed

theorem multipart_framing_witness:
  "video_feed demo_env demo_request = Inr (stream_response (CamIndex 0) 0.25 0.45) \<and>
   mimetype (stream_response (CamIndex 0) 0.25 0.45) =
     ''multipart/x-mixed-replace; boundary=frame'' \<and>
   frame_chunk [char_of (1::nat)] \<in> set (chunks (serve demo_env 1 (video_feed demo_env demo_request))) \<and>
   take 9 (frame_chunk [char_of (1::nat)]) \<noteq> ''--frame--''"
proof -
  have v: "video_feed demo_env demo_request = Inr (stream_response (CamIndex 0) 0.25 0.45)"
    by (simp add: video_feed_def demo_request_def get_float_def get_int_def)
  have m: "mimetype (stream_response (CamIndex 0) 0.25 0.45) =
     ''multipart/x-mixed-replace; boundary=frame''"
    using multipart_framing [of "[]" demo_env 1 demo_request] v by blast
  have s: "chunks (serve demo_env 1 (video_feed demo_env demo_request)) =
     [frame_chunk [char_of (1::nat)]]"
    unfolding v
    by (simp add: serve_def stream_response_def resume_def annotate_encode_def demo_env_def
        demo_predict_def demo_plot_def demo_imencode_def px_def blue_def)
  have i: "frame_chunk [char_of (1::nat)] \<in> set (chunks (serve demo_env 1 (video_feed demo_env demo_request)))"
    unfolding s by simp
  have t: "take 9 (frame_chunk [char_of (1::nat)]) \<noteq> ''--frame--''"
    using multipart_framing [of "[]" demo_env 1 demo_request] i by simp
  show ?thesis using v m i t by blast
qed

text \<open>
  Claim C2, as stated, fails: a threshold that is not a number makes \<^verbatim>\<open>float\<close> raise
  \<^verbatim>\<open>ValueError\<close>, which no view catches, so the request ends as 500, not as 400.
\<close>

theorem malformed_threshold_counterexample:
  "args (demo_request\<lparr>args := [''conf'' \<mapsto> ''abc'']\<rparr>) ''conf'' = Some ''abc'' \<and>
   float_str demo_env ''abc'' = None \<and>
   video_feed demo_env (demo_request\<lparr>args := [''conf'' \<mapsto> ''abc'']\<rparr>) = Inl ValueError \<and>
   http_status (video_feed demo_env (demo_request\<lparr>args := [''conf'' \<mapsto> ''abc'']\<rparr>)) = 500"
  by (simp add: video_feed_def get_float_def demo_request_def demo_env_def http_status_def)

text \<open>
  Claim C2, amended. In \<^verbatim>\<open>video_feed\<close>, \<^verbatim>\<open>stream_video\<close> and \<^verbatim>\<open>predict\<close> an absent
  \<^verbatim>\<open>conf\<close> is 0.25 and an absent \<^verbatim>\<open>iou\<close> is 0.45. A supplied value that \<^verbatim>\<open>float\<close>
  rejects is never replaced by the default: the view raises \<^verbatim>\<open>ValueError\<close> and the
  request fails with status 500 (in \<^verbatim>\<open>predict\<close> once the request has passed the checks
  for a named file, which come first).
\<close>

theorem thresholds_default_or_raise:
  "(args req ''conf'' = None \<longrightarrow>
      (\<forall>resp. video_feed env req = Inr resp \<longrightarrow> (\<exists>s i. body resp = Stream (Created s 0.25 i))) \<and>
      (\<forall>resp g. stream_video env req = Inr resp \<and> body resp = Stream g \<longrightarrow>
         (\<exists>s i. g = Created s 0.25 i))) \<and>
   (args req ''iou'' = None \<longrightarrow>
      (\<forall>resp. video_feed env req = Inr resp \<longrightarrow> (\<exists>s c. body resp = Stream (Created s c 0.45))) \<and>
      (\<forall>resp g. stream_video env req = Inr resp \<and> body resp = Stream g \<longrightarrow>
         (\<exists>s c. g = Created s c 0.45))) \<and>
   (\<forall>evs resp rs. predict env req = (evs, Inr resp) \<and> body resp = ResultPage rs \<longrightarrow>
      (form req ''conf'' = None \<longrightarrow> (\<forall>r \<in> set rs. conf_used r = 0.25)) \<and>
      (form req ''iou'' = None \<longrightarrow> (\<forall>r \<in> set rs. iou_used r = 0.45))) \<and>
   (malformed env (args req) ''conf'' \<or> malformed env (args req) ''iou'' \<longrightarrow>
      video_feed env req = Inl ValueError \<and> http_status (video_feed env req) = 500 \<and>
      stream_video env req = Inl ValueError \<and> http_status (stream_video env req) = 500) \<and>
   (malformed env (form req) ''conf'' \<or> malformed env (form req) ''iou'' \<longrightarrow>
      (\<forall>fs. files req ''file'' = Some fs \<and> \<not> list_all (\<lambda>f. filename f = []) fs \<longrightarrow>
         predict env req = ([], Inl ValueError) \<and> http_status (snd (predict env req)) = 500))"
proof -
  have a: "args req ''conf'' = None \<Longrightarrow> video_feed env req = Inr resp \<Longrightarrow>
      \<exists>s i. body resp = Stream (Created s 0.25 i)" for resp
    by (auto simp: video_feed_def get_float_absent stream_response_def split: sum.splits)
  have b: "args req ''conf'' = None \<Longrightarrow> stream_video env req = Inr resp \<Longrightarrow>
      body resp = Stream g \<Longrightarrow> \<exists>s i. g = Created s 0.25 i" for resp g
    by (auto simp: stream_video_def get_float_absent stream_response_def text_response_def
        split: sum.splits option.splits if_splits)
  have c: "args req ''iou'' = None \<Longrightarrow> video_feed env req = Inr resp \<Longrightarrow>
      \<exists>s c. body resp = Stream (Created s c 0.45)" for resp
    by (auto simp: video_feed_def get_float_absent stream_response_def split: sum.splits)
  have d: "args req ''iou'' = None \<Longrightarrow> stream_video env req = Inr resp \<Longrightarrow>
      body resp = Stream g \<Longrightarrow> \<exists>s c. g = Created s c 0.45" for resp g
    by (auto simp: stream_video_def get_float_absent stream_response_def text_response_def
        split: sum.splits option.splits if_splits)
  have e: "predict env req = (evs, Inr resp) \<Longrightarrow> body resp = ResultPage rs \<Longrightarrow>
      (form req ''conf'' = None \<longrightarrow> (\<forall>r \<in> set rs. conf_used r = 0.25)) \<and>
      (form req ''iou'' = None \<longrightarrow> (\<forall>r \<in> set rs. iou_used r = 0.45))" for evs resp rs
    by (auto simp: predict_def get_float_absent text_response_def
        split: option.splits if_splits sum.splits prod.splits
        dest!: predict_loop_thresholds)
  have f: "malformed env (args req) ''conf'' \<or> malformed env (args req) ''iou'' \<Longrightarrow>
      video_feed env req = Inl ValueError \<and> stream_video env req = Inl ValueError"
    by (auto simp: video_feed_def stream_video_def get_float_malformed
        split: sum.splits dest: get_float_cases)
  have g: "malformed env (form req) ''conf'' \<or> malformed env (form req) ''iou'' \<Longrightarrow>
      files req ''file'' = Some fs \<Longrightarrow> \<not> list_all (\<lambda>f. filename f = []) fs \<Longrightarrow>
      predict env req = ([], Inl ValueError)" for fs
    by (auto simp: predict_def get_float_malformed split: sum.splits dest: get_float_cases)
  show ?thesis
    using a b c d e f g by (simp add: http_status_def)
qed


theorem thresholds_default_or_raise_witness:
  "args demo_request ''conf'' = None \<and> args demo_request ''iou'' = None \<and>
   video_feed demo_env demo_request = Inr (stream_response (CamIndex 0) 0.25 0.45) \<and>
   malformed demo_env (args (demo_request\<lparr>args := [''iou'' \<mapsto> ''high'']\<rparr>)) ''iou'' \<and>
   stream_video demo_env (demo_request\<lparr>args := [''iou'' \<mapsto> ''high'']\<rparr>) = Inl ValueError \<and>
   http_status (stream_video demo_env (demo_request\<lparr>args := [''iou'' \<mapsto> ''high'']\<rparr>)) = 500"
proof -
  have h1: "args demo_request ''conf'' = None" "args demo_request ''iou'' = None"
    by (simp_all add: demo_request_def)
  have v: "video_feed demo_env demo_request = Inr (stream_response (CamIndex 0) 0.25 0.45)"
    by (simp add: video_feed_def demo_request_def get_float_def get_int_def)
  have h2: "malformed demo_env (args (demo_request\<lparr>args := [''iou'' \<mapsto> ''high'']\<rparr>)) ''iou''"
    by (simp add: malformed_def demo_env_def)
  from h2 thresholds_default_or_raise
    [of "demo_request\<lparr>args := [''iou'' \<mapsto> ''high'']\<rparr>" demo_env]
  have r: "stream_video demo_env (demo_request\<lparr>args := [''iou'' \<mapsto> ''high'']\<rparr>) = Inl ValueError"
    "http_status (stream_video demo_env (demo_request\<lparr>args := [''iou'' \<mapsto> ''high'']\<rparr>)) = 500"
    by blast+
  from h1 v thresholds_default_or_raise [of demo_request demo_env]
  have "\<exists>s i. body (stream_response (CamIndex 0) 0.25 0.45) = Stream (Created s 0.25 i)"
    by blast
  then show ?thesis using h1 v h2 r by blast
qed

text \<open>
  Claim C8. \<^verbatim>\<open>predict\<close> answers 400 when the request has no \<^verbatim>\<open>file\<close> field and when
  every uploaded file has an empty name; nothing has happened by then: no file is
  saved and the detector is not called.
\<close>

theorem predict_rejects_without_file:
  "(files req ''file'' = None \<longrightarrow>
      predict env req = ([], Inr (text_response ''No file uploaded'' 400)) \<and>
      http_status (snd (predict env req)) = 400 \<and> fst (predict env req) = []) \<and>
   (\<forall>fs. files req ''file'' = Some fs \<and> list_all (\<lambda>f. filename f = []) fs \<longrightarrow>
      predict env req = ([], Inr (text_response ''No selected files'' 400)) \<and>
      http_status (snd (predict env req)) = 400 \<and> fst (predict env req) = [])"
  by (auto simp: predict_def http_status_def text_response_def)

theorem predict_rejects_without_file_witness:
  "files demo_request ''file'' = None \<and>
   predict demo_env demo_request = ([], Inr (text_response ''No file uploaded'' 400)) \<and>
   files (demo_request\<lparr>files := [''file'' \<mapsto> [\<lparr>filename = [], content = []\<rparr>]]\<rparr>) ''file'' =
     Some [\<lparr>filename = [], content = []\<rparr>] \<and>
   list_all (\<lambda>f. filename f = []) [\<lparr>filename = [], content = []\<rparr>] \<and>
   predict demo_env (demo_request\<lparr>files := [''file'' \<mapsto> [\<lparr>filename = [], content = []\<rparr>]]\<rparr>) =
     ([], Inr (text_response ''No selected files'' 400))"
proof -
  have h1: "files demo_request ''file'' = None" by (simp add: demo_request_def)
  have h2: "files (demo_request\<lparr>files := [''file'' \<mapsto> [\<lparr>filename = [], content = []\<rparr>]]\<rparr>) ''file'' =
     Some [\<lparr>filename = [], content = []\<rparr>]" by simp
  have h3: "list_all (\<lambda>f. filename f = []) [\<lparr>filename = [], content = []\<rparr>]" by simp
  show ?thesis
    using h1 h2 h3 predict_rejects_without_file [of demo_request demo_env]
      predict_rejects_without_file
        [of "demo_request\<lparr>files := [''file'' \<mapsto> [\<lparr>filename = [], content = []\<rparr>]]\<rparr>" demo_env]
    by blast
qed

text \<open>
  Claim C9, as stated, fails: \<^verbatim>\<open>stream_video\<close> parses the thresholds before it looks
  at \<^verbatim>\<open>video_file\<close>, so a request without \<^verbatim>\<open>video_file\<close> and with a threshold that
  is not a number ends as 500, not as 400.
\<close>

theorem stream_video_parses_first_counterexample:
  "args (demo_request\<lparr>args := [''conf'' \<mapsto> ''abc'']\<rparr>) ''video_file'' = None \<and>
   stream_video demo_env (demo_request\<lparr>args := [''conf'' \<mapsto> ''abc'']\<rparr>) = Inl ValueError \<and>
   http_status (stream_video demo_env (demo_request\<lparr>args := [''conf'' \<mapsto> ''abc'']\<rparr>)) = 500"
  by (simp add: stream_video_def get_float_def demo_request_def demo_env_def http_status_def)

text \<open>
  Claim C9, amended. When \<^verbatim>\<open>conf\<close> and \<^verbatim>\<open>iou\<close> are absent or well-formed,
  \<^verbatim>\<open>stream_video\<close> answers 400 when \<^verbatim>\<open>video_file\<close> is missing (or empty) and 404 when
  the resolved path is not an existing file. Whenever the answer is not 200, serving it
  does nothing: no capture source is opened and no chunk is written.
\<close>

theorem stream_video_rejects:
  "(\<not> malformed env (args req) ''conf'' \<and> \<not> malformed env (args req) ''iou'' \<longrightarrow>
      (args req ''video_file'' = None \<or> args req ''video_file'' = Some [] \<longrightarrow>
         stream_video env req = Inr (text_response ''Missing video file path'' 400) \<and>
         http_status (stream_video env req) = 400) \<and>
      (\<forall>v. args req ''video_file'' = Some v \<and> v \<noteq> [] \<and> \<not> isfile env (video_path_of env v) \<longrightarrow>
         stream_video env req =
           Inr (text_response (''Video not found: '' @ video_path_of env v) 404) \<and>
         http_status (stream_video env req) = 404)) \<and>
   (http_status (stream_video env req) \<noteq> 200 \<longrightarrow> serve env k (stream_video env req) = [])"
proof -
  have a: "\<not> malformed env (args req) ''conf'' \<Longrightarrow> \<not> malformed env (args req) ''iou'' \<Longrightarrow>
      args req ''video_file'' = None \<or> args req ''video_file'' = Some [] \<Longrightarrow>
      stream_video env req = Inr (text_response ''Missing video file path'' 400)"
    using get_float_wellformed [of env "args req" "''conf''" "0.25"]
      get_float_wellformed [of env "args req" "''iou''" "0.45"]
    by (auto simp: stream_video_def)
  have b: "\<not> malformed env (args req) ''conf'' \<Longrightarrow> \<not> malformed env (args req) ''iou'' \<Longrightarrow>
      args req ''video_file'' = Some v \<Longrightarrow> v \<noteq> [] \<Longrightarrow> \<not> isfile env (video_path_of env v) \<Longrightarrow>
      stream_video env req =
        Inr (text_response (''Video not found: '' @ video_path_of env v) 404)" for v
    using get_float_wellformed [of env "args req" "''conf''" "0.25"]
      get_float_wellformed [of env "args req" "''iou''" "0.45"]
    by (auto simp: stream_video_def)
  have c: "http_status (stream_video env req) \<noteq> 200 \<Longrightarrow> serve env k (stream_video env req) = []"
    by (auto simp: stream_video_def http_status_def serve_def text_response_def
        stream_response_def split: sum.splits option.splits if_splits)
  show ?thesis
    using a b c by (auto simp: http_status_def text_response_def)
qed


theorem stream_video_rejects_witness:
  "\<not> malformed demo_env (args demo_request) ''conf'' \<and>
   \<not> malformed demo_env (args demo_request) ''iou'' \<and>
   args demo_request ''video_file'' = None \<and>
   stream_video demo_env demo_request = Inr (text_response ''Missing video file path'' 400) \<and>
   serve demo_env 3 (stream_video demo_env demo_request) = [] \<and>
   \<not> isfile demo_env (video_path_of demo_env ''gone.mp4'') \<and>
   http_status (stream_video demo_env (demo_request\<lparr>args := [''video_file'' \<mapsto> ''gone.mp4'']\<rparr>)) =
     404"
proof -
  have h1: "\<not> malformed demo_env (args demo_request) ''conf''"
    "\<not> malformed demo_env (args demo_request) ''iou''"
    "args demo_request ''video_file'' = None"
    by (simp_all add: malformed_def demo_request_def)
  have h2: "\<not> malformed demo_env (args (demo_request\<lparr>args := [''video_file'' \<mapsto> ''gone.mp4'']\<rparr>)) ''conf''"
    "\<not> malformed demo_env (args (demo_request\<lparr>args := [''video_file'' \<mapsto> ''gone.mp4'']\<rparr>)) ''iou''"
    "args (demo_request\<lparr>args := [''video_file'' \<mapsto> ''gone.mp4'']\<rparr>) ''video_file'' = Some ''gone.mp4''"
    "''gone.mp4'' \<noteq> []"
    by (simp_all add: malformed_def demo_request_def)
  have p: "video_path_of demo_env ''gone.mp4'' = ''static/uploads/gone.mp4''"
    by code_simp
  have h3: "\<not> isfile demo_env (video_path_of demo_env ''gone.mp4'')"
    unfolding p by (simp add: demo_env_def)
  note A = stream_video_rejects [of demo_env demo_request 3]
  note B = stream_video_rejects
    [of demo_env "demo_request\<lparr>args := [''video_file'' \<mapsto> ''gone.mp4'']\<rparr>" 3]
  have a: "stream_video demo_env demo_request = Inr (text_response ''Missing video file path'' 400)"
    "http_status (stream_video demo_env demo_request) = 400"
    using h1 A by blast+
  then have a2: "serve demo_env 3 (stream_video demo_env demo_request) = []"
    using A by simp
  have b: "http_status (stream_video demo_env (demo_request\<lparr>args := [''video_file'' \<mapsto> ''gone.mp4'']\<rparr>)) = 404"
    using h2 h3 B by blast
  show ?thesis using h1 h3 a a2 b by blast
qed

text \<open>
  Claim C10. Whatever string is passed as \<^verbatim>\<open>video_file\<close>, a stream that
  \<^verbatim>\<open>stream_video\<close> returns, and every capture that serving it opens, is on the path
  \<^verbatim>\<open>static/uploads/\<close> followed by the sanitized base name of that string. The sanitized
  name has no separator and is neither \<^verbatim>\<open>.\<close> nor \<^verbatim>\<open>..\<close>, so the path names an entry of
  the upload folder itself, and directories put in front of the parameter change nothing.
\<close>

theorem stream_video_opens_sanitized_basename:
  "(\<forall>resp g. stream_video env req = Inr resp \<and> body resp = Stream g \<longrightarrow>
      (\<exists>v c i. args req ''video_file'' = Some v \<and>
         g = Created (VideoFile (UPLOAD_FOLDER @ ''/'' @ secure_filename env (basename v))) c i)) \<and>
   (\<forall>s. EvOpen s \<in> set (serve env k (stream_video env req)) \<longrightarrow>
      (\<exists>v. args req ''video_file'' = Some v \<and>
         s = VideoFile (UPLOAD_FOLDER @ ''/'' @ secure_filename env (basename v)))) \<and>
   video_path_of env video_file = UPLOAD_FOLDER @ ''/'' @ secure_filename env (basename video_file) \<and>
   CHR ''/'' \<notin> set (secure_filename env (basename video_file)) \<and>
   secure_filename env (basename video_file) \<noteq> ''.'' \<and>
   secure_filename env (basename video_file) \<noteq> ''..'' \<and>
   basename (video_path_of env video_file) = secure_filename env (basename video_file) \<and>
   video_path_of env (dir @ ''/'' @ video_file) = video_path_of env video_file"
proof -
  have p: "video_path_of env v = UPLOAD_FOLDER @ ''/'' @ secure_filename env (basename v)" for v
    by (simp add: video_path_of_def path_join_upload secure_filename_no_sep)
  have a: "stream_video env req = Inr resp \<Longrightarrow> body resp = Stream g \<Longrightarrow>
      \<exists>v c i. args req ''video_file'' = Some v \<and> g = Created (VideoFile (video_path_of env v)) c i"
    for resp g
    by (auto simp: stream_video_def stream_response_def text_response_def
        split: sum.splits option.splits if_splits)
  have b: "EvOpen s \<in> set (serve env k (stream_video env req)) \<Longrightarrow>
      \<exists>v. args req ''video_file'' = Some v \<and> s = VideoFile (video_path_of env v)" for s
  proof -
    assume o: "EvOpen s \<in> set (serve env k (stream_video env req))"
    then obtain resp where r: "stream_video env req = Inr resp"
      by (cases "stream_video env req") (auto simp: serve_def)
    with o obtain g where g: "body resp = Stream g"
      by (cases "body resp") (auto simp: serve_def)
    from a [OF r g] obtain v c i where v: "args req ''video_file'' = Some v"
      "g = Created (VideoFile (video_path_of env v)) c i" by blast
    from o r g v have "EvOpen s \<in> set (fst (serve_stream env k (Created (VideoFile (video_path_of env v)) c i)))"
      by (simp add: serve_def)
    from serve_stream_opens [OF this] v show ?thesis by blast
  qed
  have c: "basename (video_path_of env video_file) = secure_filename env (basename video_file)"
    unfolding p
    using basename_dir [of UPLOAD_FOLDER "secure_filename env (basename video_file)"]
    by (simp add: basename_no_sep secure_filename_no_sep)
  have d: "video_path_of env (dir @ ''/'' @ video_file) = video_path_of env video_file"
    unfolding video_path_of_def basename_dir ..
  have a': "\<forall>resp g. stream_video env req = Inr resp \<and> body resp = Stream g \<longrightarrow>
      (\<exists>v c i. args req ''video_file'' = Some v \<and>
         g = Created (VideoFile (UPLOAD_FOLDER @ ''/'' @ secure_filename env (basename v))) c i)"
    using a unfolding p by blast
  have b': "\<forall>s. EvOpen s \<in> set (serve env k (stream_video env req)) \<longrightarrow>
      (\<exists>v. args req ''video_file'' = Some v \<and>
         s = VideoFile (UPLOAD_FOLDER @ ''/'' @ secure_filename env (basename v)))"
    using b unfolding p by blast
  note e = secure_filename_no_sep [of env "basename video_file"]
  note f = secure_filename_not_dots [of env "basename video_file"]
  from a' b' p [of video_file] e f c d show ?thesis by (intro conjI) blast+
qed


theorem stream_video_opens_sanitized_basename_witness:
  "args (demo_request\<lparr>args := [''video_file'' \<mapsto> ''/etc/../clip.mp4'']\<rparr>) ''video_file'' =
     Some ''/etc/../clip.mp4'' \<and>
   stream_video demo_env (demo_request\<lparr>args := [''video_file'' \<mapsto> ''/etc/../clip.mp4'']\<rparr>) =
     Inr (stream_response (VideoFile ''static/uploads/clip.mp4'') 0.25 0.45) \<and>
   ''static/uploads/clip.mp4'' =
     UPLOAD_FOLDER @ ''/'' @ secure_filename demo_env (basename ''/etc/../clip.mp4'')"
proof -
  let ?req = "demo_request\<lparr>args := [''video_file'' \<mapsto> ''/etc/../clip.mp4'']\<rparr>"
  have h0: "args ?req ''video_file'' = Some ''/etc/../clip.mp4''" by simp
  have p: "video_path_of demo_env ''/etc/../clip.mp4'' = ''static/uploads/clip.mp4''"
    by code_simp
  have h1: "stream_video demo_env ?req =
     Inr (stream_response (VideoFile ''static/uploads/clip.mp4'') 0.25 0.45)"
    by (simp add: stream_video_def get_float_def demo_request_def p) (simp add: demo_env_def)
  have h2: "body (stream_response (VideoFile ''static/uploads/clip.mp4'') 0.25 0.45) =
     Stream (Created (VideoFile ''static/uploads/clip.mp4'') 0.25 0.45)"
    by (simp add: stream_response_def)
  from stream_video_opens_sanitized_basename [of demo_env ?req 1 "[]" "[]"] h1 h2
  obtain v c i where "args ?req ''video_file'' = Some v"
    "Created (VideoFile ''static/uploads/clip.mp4'') 0.25 0.45 =
       Created (VideoFile (UPLOAD_FOLDER @ ''/'' @ secure_filename demo_env (basename v))) c i"
    by blast
  with h0 have "''static/uploads/clip.mp4'' =
     UPLOAD_FOLDER @ ''/'' @ secure_filename demo_env (basename ''/etc/../clip.mp4'')"
    by simp
  with h0 h1 show ?thesis by blast
qed

end
